theory Spec2Isabelle
  imports Complex_Main
begin

section \<open>JavaScript values\<close>

text \<open>
  The emulator of \<^verbatim>\<open>src/project/ls8/cpu.js\<close> computes on JavaScript values. The values that
  reach the registers, the memory and the special registers are numbers and \<^verbatim>\<open>undefined\<close>
  (an unset array slot or property). A number is modelled as an exact rational, the two
  infinities, the negative zero or NaN: the rounding of IEEE doubles and their overflow to
  infinity are not modelled, so the model is the code on every number the doubles hold
  exactly (all integers below \<open>2^53\<close> in magnitude among them). \<open>Num 0\<close> is the positive zero.

  The source file holds the class twice: the full emulator and, after it, the skeleton it
  grew from (five opcodes, no stack, no jumps). The definitions below follow the full one.
\<close>

datatype jsval = Num rat | NegZero | PInf | NInf | NaN | Undefined

text \<open>\<open>is_nan v\<close>: the conversion of \<open>v\<close> to a number is NaN (\<^verbatim>\<open>undefined\<close> converts to NaN).\<close>

fun is_nan :: "jsval \<Rightarrow> bool" where
  "is_nan NaN = True"
| "is_nan Undefined = True"
| "is_nan _ = False"

fun is_inf :: "jsval \<Rightarrow> bool" where
  "is_inf PInf = True"
| "is_inf NInf = True"
| "is_inf _ = False"

fun is_zero :: "jsval \<Rightarrow> bool" where
  "is_zero (Num q) = (q = 0)"
| "is_zero NegZero = True"
| "is_zero _ = False"

text \<open>The sign bit of a number.\<close>

fun negative :: "jsval \<Rightarrow> bool" where
  "negative (Num q) = (q < 0)"
| "negative NegZero = True"
| "negative NInf = True"
| "negative _ = False"

text \<open>The magnitude-with-sign of a finite number as a rational (both zeros are 0).\<close>

fun mag :: "jsval \<Rightarrow> rat" where
  "mag (Num q) = q"
| "mag _ = 0"

definition signed_zero :: "bool \<Rightarrow> jsval" where
  "signed_zero neg = (if neg then NegZero else Num 0)"

definition signed_inf :: "bool \<Rightarrow> jsval" where
  "signed_inf neg = (if neg then NInf else PInf)"

definition finite_result :: "bool \<Rightarrow> rat \<Rightarrow> jsval" where
  "finite_result neg q = (if q = 0 then signed_zero neg else Num q)"

text \<open>\<^verbatim>\<open>a + b\<close> on numbers and \<^verbatim>\<open>undefined\<close>.\<close>

definition js_add :: "jsval \<Rightarrow> jsval \<Rightarrow> jsval" where
  "js_add a b =
     (if is_nan a \<or> is_nan b then NaN
      else if is_inf a then (if is_inf b \<and> a \<noteq> b then NaN else a)
      else if is_inf b then b
      else if a = NegZero \<and> b = NegZero then NegZero
      else Num (mag a + mag b))"

fun js_neg :: "jsval \<Rightarrow> jsval" where
  "js_neg (Num q) = (if q = 0 then NegZero else Num (- q))"
| "js_neg NegZero = Num 0"
| "js_neg PInf = NInf"
| "js_neg NInf = PInf"
| "js_neg NaN = NaN"
| "js_neg Undefined = NaN"

text \<open>\<^verbatim>\<open>a - b\<close>: the sum of \<open>a\<close> and the negated \<open>b\<close>, as in IEEE arithmetic.\<close>

definition js_sub :: "jsval \<Rightarrow> jsval \<Rightarrow> jsval" where
  "js_sub a b = js_add a (js_neg b)"

text \<open>\<^verbatim>\<open>a * b\<close>.\<close>

definition js_mul :: "jsval \<Rightarrow> jsval \<Rightarrow> jsval" where
  "js_mul a b =
     (if is_nan a \<or> is_nan b then NaN
      else if is_inf a \<or> is_inf b then
        (if is_zero a \<or> is_zero b then NaN else signed_inf (negative a \<noteq> negative b))
      else finite_result (negative a \<noteq> negative b) (mag a * mag b))"

text \<open>\<^verbatim>\<open>a / b\<close>: the division of doubles, which never raises. A non-zero number over a zero
  is an infinity, a zero over a zero is NaN.\<close>

definition js_div :: "jsval \<Rightarrow> jsval \<Rightarrow> jsval" where
  "js_div a b =
     (if is_nan a \<or> is_nan b then NaN
      else if is_inf a then (if is_inf b then NaN else signed_inf (negative a \<noteq> negative b))
      else if is_inf b then signed_zero (negative a \<noteq> negative b)
      else if is_zero b then
        (if is_zero a then NaN else signed_inf (negative a \<noteq> negative b))
      else finite_result (negative a \<noteq> negative b) (mag a / mag b))"

text \<open>Rounding towards zero.\<close>

definition trunc :: "rat \<Rightarrow> int" where
  "trunc q = (if q < 0 then - \<lfloor>- q\<rfloor> else \<lfloor>q\<rfloor>)"

text \<open>\<^verbatim>\<open>a % b\<close>: the remainder has the sign of the dividend; a zero divisor gives NaN.\<close>

definition js_mod :: "jsval \<Rightarrow> jsval \<Rightarrow> jsval" where
  "js_mod a b =
     (if is_nan a \<or> is_nan b then NaN
      else if is_inf a \<or> is_zero b then NaN
      else if is_inf b then a
      else if is_zero a then a
      else finite_result (negative a) (mag a - mag b * of_int (trunc (mag a / mag b))))"

text \<open>\<^verbatim>\<open>a === b\<close>: NaN equals nothing, the two zeros are equal.\<close>

definition js_seq :: "jsval \<Rightarrow> jsval \<Rightarrow> bool" where
  "js_seq a b =
     (if a = Undefined \<or> b = Undefined then a = b
      else if a = NaN \<or> b = NaN then False
      else if is_zero a \<and> is_zero b then True
      else a = b)"

text \<open>\<^verbatim>\<open>a < b\<close> and \<^verbatim>\<open>a > b\<close>: false as soon as one side converts to NaN.\<close>

definition js_lt :: "jsval \<Rightarrow> jsval \<Rightarrow> bool" where
  "js_lt a b =
     (if is_nan a \<or> is_nan b then False
      else if a = PInf \<or> b = NInf then False
      else if a = NInf \<or> b = PInf then True
      else mag a < mag b)"

definition js_gt :: "jsval \<Rightarrow> jsval \<Rightarrow> bool" where
  "js_gt a b = js_lt b a"

text \<open>The conversion to a signed 32-bit integer that every bitwise operator applies to its
  operands: NaN, the infinities, the zeros and \<^verbatim>\<open>undefined\<close> give 0, a finite number is
  truncated and wrapped modulo \<open>2^32\<close> into \<open>[-2^31, 2^31)\<close>.\<close>

fun toInt32 :: "jsval \<Rightarrow> int" where
  "toInt32 (Num q) = (let k = trunc q mod 2 ^ 32 in if k \<ge> 2 ^ 31 then k - 2 ^ 32 else k)"
| "toInt32 _ = 0"

text \<open>\<^verbatim>\<open>a & b\<close>, \<^verbatim>\<open>a | b\<close>, \<^verbatim>\<open>a ^ b\<close>, \<^verbatim>\<open>~a\<close> and \<^verbatim>\<open>a >> b\<close> (the shift count is taken
  modulo 32, the shift is arithmetic).\<close>

definition js_and :: "jsval \<Rightarrow> jsval \<Rightarrow> jsval" where
  "js_and a b = Num (of_int (and (toInt32 a) (toInt32 b)))"

definition js_or :: "jsval \<Rightarrow> jsval \<Rightarrow> jsval" where
  "js_or a b = Num (of_int (or (toInt32 a) (toInt32 b)))"

definition js_xor :: "jsval \<Rightarrow> jsval \<Rightarrow> jsval" where
  "js_xor a b = Num (of_int (xor (toInt32 a) (toInt32 b)))"

definition js_not :: "jsval \<Rightarrow> jsval" where
  "js_not a = Num (of_int (not (toInt32 a)))"

definition js_shr :: "jsval \<Rightarrow> jsval \<Rightarrow> jsval" where
  "js_shr a b = Num (of_int (drop_bit (nat (toInt32 b mod 32)) (toInt32 a)))"

text \<open>An index \<^verbatim>\<open>o[v]\<close> uses the text of \<open>v\<close> as the property name. Two values have the same
  text only if they are equal or are the two zeros (both print as \<^verbatim>\<open>0\<close>), so a property
  name is modelled as the value with the negative zero replaced by the positive one.\<close>

fun key_of :: "jsval \<Rightarrow> jsval" where
  "key_of NegZero = Num 0"
| "key_of v = v"

text \<open>An unsigned 8-bit value: an integer from 0 to 255.\<close>

fun is_byte :: "jsval \<Rightarrow> bool" where
  "is_byte (Num q) = (0 \<le> q \<and> q \<le> 255 \<and> of_int \<lfloor>q\<rfloor> = q)"
| "is_byte _ = False"

section \<open>The machine state\<close>

text \<open>An argument of a console call: a string, a value, or a string with the text of a
  value appended (\<^verbatim>\<open>'Unknown opcode ' + IR\<close>).\<close>

datatype console_arg = Str string | Val jsval | StrVal string jsval

text \<open>
  The object \<^verbatim>\<open>this\<close>: \<open>ram\<close> is the memory, \<open>reg\<close> the indexed slots of the array
  \<^verbatim>\<open>this.reg\<close> by property name, \<open>PC\<close>, \<open>IR\<close> and \<open>FL\<close> its named properties (no number or
  \<^verbatim>\<open>undefined\<close> has the text \<^verbatim>\<open>PC\<close>, \<^verbatim>\<open>IR\<close> or \<^verbatim>\<open>FL\<close>, so an indexed write never reaches
  them), \<open>clock\<close> whether the interval timer of \<^verbatim>\<open>startClock\<close> is active, and the two logs
  the calls of \<^verbatim>\<open>console.log\<close> and \<^verbatim>\<open>console.error\<close> so far, oldest first.
\<close>

record cpu =
  ram :: "jsval \<Rightarrow> jsval"
  reg :: "jsval \<Rightarrow> jsval"
  PC :: jsval
  IR :: jsval
  FL :: jsval
  clock :: bool
  console_log :: "console_arg list list"
  console_error :: "console_arg list list"

text \<open>
  Modelled from the spec: the RAM class (\<^verbatim>\<open>this.ram\<close>, with \<^verbatim>\<open>read\<close> and \<^verbatim>\<open>write\<close>) is not in
  the source file. The spec describes it as a flat array read and written by address, with
  no bounds checking; it is a store from property names to values, as a JavaScript array is.
\<close>

definition ram_read :: "(jsval \<Rightarrow> jsval) \<Rightarrow> jsval \<Rightarrow> jsval" where
  "ram_read m address = m (key_of address)"

definition ram_write :: "(jsval \<Rightarrow> jsval) \<Rightarrow> jsval \<Rightarrow> jsval \<Rightarrow> (jsval \<Rightarrow> jsval)" where
  "ram_write m address v = m(key_of address := v)"

text \<open>\<^verbatim>\<open>new Array(n).fill(v)\<close>: the slots \<open>0 .. n - 1\<close> hold \<open>v\<close>, every other one is unset.\<close>

definition array_fill :: "nat \<Rightarrow> jsval \<Rightarrow> (jsval \<Rightarrow> jsval)" where
  "array_fill n v =
     (\<lambda>k. case k of
        Num q \<Rightarrow> if 0 \<le> q \<and> q < of_nat n \<and> of_int \<lfloor>q\<rfloor> = q then v else Undefined
      | _ \<Rightarrow> Undefined)"

section \<open>Opcodes\<close>

definition HLT_code :: rat where "HLT_code = 1"      \<comment> \<open>0b00000001\<close>
definition ADD_code :: rat where "ADD_code = 168"    \<comment> \<open>0b10101000\<close>
definition MUL_code :: rat where "MUL_code = 170"    \<comment> \<open>0b10101010\<close>
definition LDI_code :: rat where "LDI_code = 153"    \<comment> \<open>0b10011001\<close>
definition PRN_code :: rat where "PRN_code = 67"     \<comment> \<open>0b01000011\<close>
definition POP_code :: rat where "POP_code = 76"     \<comment> \<open>0b01001100\<close>
definition PUSH_code :: rat where "PUSH_code = 77"   \<comment> \<open>0b01001101\<close>
definition CALL_code :: rat where "CALL_code = 72"   \<comment> \<open>0b01001000\<close>
definition RET_code :: rat where "RET_code = 9"      \<comment> \<open>0b00001001\<close>
definition AND_code :: rat where "AND_code = 179"    \<comment> \<open>0b10110011\<close>
definition NOP_code :: rat where "NOP_code = 0"      \<comment> \<open>0b00000000\<close>
definition INC_code :: rat where "INC_code = 120"    \<comment> \<open>0b01111000\<close>
definition DEC_code :: rat where "DEC_code = 121"    \<comment> \<open>0b01111001\<close>
definition DIV_code :: rat where "DIV_code = 171"    \<comment> \<open>0b10101011\<close>
definition CMP_code :: rat where "CMP_code = 160"    \<comment> \<open>0b10100000\<close>
definition JEQ_code :: rat where "JEQ_code = 81"     \<comment> \<open>0b01010001\<close>
definition JNE_code :: rat where "JNE_code = 82"     \<comment> \<open>0b01010010\<close>
definition JMP_code :: rat where "JMP_code = 80"     \<comment> \<open>0b01010000\<close>
definition MOD_code :: rat where "MOD_code = 172"    \<comment> \<open>0b10101100\<close>
definition NOT_code :: rat where "NOT_code = 112"    \<comment> \<open>0b01110000\<close>
definition OR_code :: rat where "OR_code = 177"      \<comment> \<open>0b10110001\<close>
definition SUB_code :: rat where "SUB_code = 169"    \<comment> \<open>0b10101001\<close>
definition XOR_code :: rat where "XOR_code = 178"    \<comment> \<open>0b10110010\<close>

section \<open>The CPU class\<close>

text \<open>
  The identifier \<^verbatim>\<open>SP\<close>, the index of the register that holds the stack pointer, is used by
  the constructor and by the stack helpers but is declared nowhere in the file. It is a
  parameter \<open>sp\<close> of every function that reads it.
\<close>

type_synonym handler = "jsval \<Rightarrow> jsval \<Rightarrow> cpu \<Rightarrow> jsval \<times> cpu"

text \<open>\<^verbatim>\<open>poke\<close>, \<^verbatim>\<open>startClock\<close> and \<^verbatim>\<open>stopClock\<close>. The timer calls \<^verbatim>\<open>tick\<close> again and again
  while it is active; \<^verbatim>\<open>clearInterval\<close> ends that.\<close>

definition poke :: "jsval \<Rightarrow> jsval \<Rightarrow> cpu \<Rightarrow> cpu" where
  "poke address v s = s\<lparr>ram := ram_write (ram s) address v\<rparr>"

definition startClock :: "cpu \<Rightarrow> cpu" where
  "startClock s = s\<lparr>clock := True\<rparr>"

definition stopClock :: "cpu \<Rightarrow> cpu" where
  "stopClock s = s\<lparr>clock := False\<rparr>"

text \<open>A handler returns the value of its \<^verbatim>\<open>return\<close> statement, \<^verbatim>\<open>undefined\<close> when it has
  none, and the state it leaves.\<close>

definition HLT :: handler where
  "HLT operandA operandB s = (Undefined, stopClock s)"

text \<open>\<^verbatim>\<open>alu(op, regA, regB)\<close>: a \<^verbatim>\<open>switch\<close> on the name of the operation, in the order of the
  source; a name with no case changes nothing.\<close>

definition alu :: "string \<Rightarrow> jsval \<Rightarrow> jsval \<Rightarrow> cpu \<Rightarrow> cpu" where
  "alu op regA regB s =
     (let A = key_of regA; B = key_of regB in
      if op = ''ADD'' then s\<lparr>reg := (reg s)(A := js_add (reg s A) (reg s B))\<rparr>
      else if op = ''MUL'' then s\<lparr>reg := (reg s)(A := js_mul (reg s A) (reg s B))\<rparr>
      else if op = ''AND'' then s\<lparr>reg := (reg s)(A := js_and (reg s A) (reg s B))\<rparr>
      else if op = ''INC'' then
        s\<lparr>reg := (reg s)(A := js_and (js_add (reg s A) (Num 1)) (Num 255))\<rparr>
      else if op = ''DEC'' then s\<lparr>reg := (reg s)(A := js_sub (reg s A) (Num 1))\<rparr>
      else if op = ''DIV'' then
        (let s1 = (if js_seq (reg s B) (Num 0)
                   then snd (HLT Undefined Undefined
                          (s\<lparr>console_error := console_error s @
                               [ [Str ''Divider cannot be zero'', Val (reg s B)] ]\<rparr>))
                   else s)
         in s1\<lparr>reg := (reg s1)(A := js_div (reg s1 A) (reg s1 B))\<rparr>)
      else if op = ''CMP'' then
        (let s1 = (if js_seq (reg s A) (reg s B)
                   then s\<lparr>FL := js_or (FL s) (Num 1)\<rparr> else s);
             s2 = (if js_gt (reg s1 A) (reg s1 B)
                   then s1\<lparr>FL := js_or (FL s1) (Num 2)\<rparr> else s1)
         in if js_lt (reg s2 A) (reg s2 B)
            then s2\<lparr>FL := js_or (FL s2) (Num 4)\<rparr> else s2)
      else if op = ''MOD'' then
        (let s1 = (if js_seq (reg s B) (Num 0)
                   then snd (HLT Undefined Undefined
                          (s\<lparr>console_error := console_error s @
                               [ [Str ''Divder cannot be zeor'', Val (reg s B)] ]\<rparr>))
                   else s)
         in s1\<lparr>reg := (reg s1)(A := js_mod (reg s1 A) (reg s1 B))\<rparr>)
      else if op = ''NOT'' then s\<lparr>reg := (reg s)(A := js_not (reg s A))\<rparr>
      else if op = ''OR'' then s\<lparr>reg := (reg s)(A := js_or (reg s A) (reg s B))\<rparr>
      else if op = ''SUB'' then s\<lparr>reg := (reg s)(A := js_sub (reg s A) (reg s B))\<rparr>
      else if op = ''XOR'' then s\<lparr>reg := (reg s)(A := js_xor (reg s A) (reg s B))\<rparr>
      else s)"

subsection \<open>Instruction handlers\<close>

text \<open>A handler that calls \<^verbatim>\<open>alu\<close> with one argument leaves \<^verbatim>\<open>regB\<close> \<^verbatim>\<open>undefined\<close>.\<close>

definition ADD :: handler where
  "ADD regA regB s = (Undefined, alu ''ADD'' regA regB s)"

definition LDI :: handler where
  "LDI regNum v s = (Undefined, s\<lparr>reg := (reg s)(key_of regNum := v)\<rparr>)"

definition MUL :: handler where
  "MUL regA regB s = (Undefined, alu ''MUL'' regA regB s)"

text \<open>\<^verbatim>\<open>_pop\<close> and \<^verbatim>\<open>_push\<close>.\<close>

definition pop :: "jsval \<Rightarrow> cpu \<Rightarrow> jsval \<times> cpu" where
  "pop sp s =
     (let val = ram_read (ram s) (reg s (key_of sp));
          s1 = alu ''INC'' sp Undefined s
      in (val, s1))"

definition POP :: "jsval \<Rightarrow> handler" where
  "POP sp regA operandB s =
     (let (val, s1) = pop sp s
      in (Undefined, s1\<lparr>reg := (reg s1)(key_of regA := val)\<rparr>))"

definition push :: "jsval \<Rightarrow> jsval \<Rightarrow> cpu \<Rightarrow> cpu" where
  "push sp val s =
     (let s1 = alu ''DEC'' sp Undefined s
      in s1\<lparr>ram := ram_write (ram s1) (reg s1 (key_of sp)) val\<rparr>)"

definition PUSH :: "jsval \<Rightarrow> handler" where
  "PUSH sp regA operandB s = (Undefined, push sp (reg s (key_of regA)) s)"

definition CALL :: handler where
  "CALL regA operandB s = (reg s (key_of regA), s)"

definition RET :: "jsval \<Rightarrow> handler" where
  "RET sp operandA operandB s = pop sp s"

definition AND :: handler where
  "AND regA regB s = (Undefined, alu ''AND'' regA regB s)"

definition NOP :: handler where
  "NOP operandA operandB s = (Undefined, s)"

definition INC :: handler where
  "INC regA operandB s = (Undefined, alu ''INC'' regA Undefined s)"

definition DEC :: handler where
  "DEC regA operandB s = (Undefined, alu ''DEC'' regA Undefined s)"

definition DIV :: handler where
  "DIV regA regB s = (Undefined, alu ''DIV'' regA regB s)"

definition CMP :: handler where
  "CMP regA regB s = (Undefined, alu ''CMP'' regA regB s)"

definition JEQ :: handler where
  "JEQ regA operandB s =
     (if js_seq (FL s) (Num 1) then (reg s (key_of regA), s) else (Undefined, s))"

definition JMP :: handler where
  "JMP regA operandB s = (reg s (key_of regA), s)"

definition JNE :: handler where
  "JNE regA operandB s =
     (if js_seq (FL s) (Num 0) then (reg s (key_of regA), s) else (Undefined, s))"

definition MOD :: handler where
  "MOD regA regB s = (Undefined, alu ''MOD'' regA regB s)"

definition NOT :: handler where
  "NOT regA operandB s = (Undefined, alu ''NOT'' regA Undefined s)"

definition OR :: handler where
  "OR regA regB s = (Undefined, alu ''OR'' regA regB s)"

definition SUB :: handler where
  "SUB regA regB s = (Undefined, alu ''SUB'' regA regB s)"

definition XOR :: handler where
  "XOR regA regB s = (Undefined, alu ''XOR'' regA regB s)"

definition PRN :: handler where
  "PRN regA operandB s =
     (Undefined, s\<lparr>console_log := console_log s @ [ [Val (reg s (key_of regA))] ]\<rparr>)"

subsection \<open>The branch table\<close>

text \<open>\<^verbatim>\<open>setupBranchTable\<close>: an object from the text of each opcode to its handler, filled in
  the order of the source (a later assignment to the same name would replace the earlier).
  The constructor builds it once and nothing assigns \<^verbatim>\<open>this.branchTable\<close> again, so it is
  a constant of the machine and not a field of the state.\<close>

definition setupBranchTable :: "jsval \<Rightarrow> (jsval \<Rightarrow> handler option)" where
  "setupBranchTable sp =
     (Map.empty
       (key_of (Num HLT_code) \<mapsto> HLT,
        key_of (Num ADD_code) \<mapsto> ADD,
        key_of (Num MUL_code) \<mapsto> MUL,
        key_of (Num LDI_code) \<mapsto> LDI,
        key_of (Num PRN_code) \<mapsto> PRN,
        key_of (Num POP_code) \<mapsto> POP sp,
        key_of (Num PUSH_code) \<mapsto> PUSH sp,
        key_of (Num CALL_code) \<mapsto> CALL,
        key_of (Num RET_code) \<mapsto> RET sp,
        key_of (Num AND_code) \<mapsto> AND,
        key_of (Num NOP_code) \<mapsto> NOP,
        key_of (Num INC_code) \<mapsto> INC,
        key_of (Num DEC_code) \<mapsto> DEC,
        key_of (Num DIV_code) \<mapsto> DIV,
        key_of (Num CMP_code) \<mapsto> CMP,
        key_of (Num JEQ_code) \<mapsto> JEQ,
        key_of (Num JMP_code) \<mapsto> JMP,
        key_of (Num JNE_code) \<mapsto> JNE,
        key_of (Num MOD_code) \<mapsto> MOD,
        key_of (Num NOT_code) \<mapsto> NOT,
        key_of (Num OR_code) \<mapsto> OR,
        key_of (Num SUB_code) \<mapsto> SUB,
        key_of (Num XOR_code) \<mapsto> XOR))"

subsection \<open>Construction, one cycle, the run\<close>

text \<open>The constructor: it assigns \<^verbatim>\<open>reg.PC\<close> and \<^verbatim>\<open>reg.IR\<close> and no other named property,
  so \<^verbatim>\<open>reg.FL\<close> is \<^verbatim>\<open>undefined\<close> in the new object; no timer is active yet.\<close>

definition CPU :: "jsval \<Rightarrow> (jsval \<Rightarrow> jsval) \<Rightarrow> cpu" where
  "CPU sp ram0 =
     \<lparr>ram = ram0,
      reg = (array_fill 8 (Num 0))(key_of sp := Num 244),
      PC = Num 0, IR = Num 0, FL = Undefined,
      clock = False, console_log = [], console_error = []\<rparr>"

text \<open>\<^verbatim>\<open>tick\<close>: fetch, look the handler up, stop on an unknown opcode, read both operands,
  run the handler, then take its return value as the new PC or step over the operands.\<close>

definition tick :: "jsval \<Rightarrow> cpu \<Rightarrow> cpu" where
  "tick sp s =
     (let s1 = s\<lparr>IR := ram_read (ram s) (PC s)\<rparr> in
      case setupBranchTable sp (key_of (IR s1)) of
        None \<Rightarrow>
          stopClock (s1\<lparr>console_error := console_error s1 @
                          [ [StrVal ''Unknown opcode '' (IR s1)] ]\<rparr>)
      | Some h \<Rightarrow>
          (let operandA = ram_read (ram s1) (js_add (PC s1) (Num 1));
               operandB = ram_read (ram s1) (js_add (PC s1) (Num 2));
               (nextPC, s2) = h operandA operandB s1
           in if nextPC \<noteq> Undefined then s2\<lparr>PC := nextPC\<rparr>
              else s2\<lparr>PC := js_add (PC s2)
                             (js_add (js_and (js_shr (IR s2) (Num 6)) (Num 3)) (Num 1))\<rparr>))"

text \<open>The run: the timer calls \<^verbatim>\<open>tick\<close> as long as it is active. \<open>run n\<close> makes at most \<open>n\<close>
  calls; \<open>None\<close> says the timer is still active after them.\<close>

fun run :: "nat \<Rightarrow> jsval \<Rightarrow> cpu \<Rightarrow> cpu option" where
  "run 0 sp s = (if clock s then None else Some s)"
| "run (Suc n) sp s = (if clock s then run n sp (tick sp s) else Some s)"

section \<open>Programs\<close>

text \<open>
  Modelled from the spec: the loader is not in the source file. The spec has it store the
  bytes of a program one by one through \<^verbatim>\<open>poke(address, value)\<close> before the run starts;
  \<open>load a vs\<close> stores the values \<open>vs\<close> at the addresses \<open>a\<close>, \<open>a + 1\<close>, ...
\<close>

fun load :: "nat \<Rightarrow> jsval list \<Rightarrow> cpu \<Rightarrow> cpu" where
  "load a [] s = s"
| "load a (v # vs) s = load (Suc a) vs (poke (Num (of_nat a)) v s)"

text \<open>\<^verbatim>\<open>LDI R0,8; LDI R1,9; MUL R0,R1; PRN R0; HLT\<close>\<close>

definition mult_program :: "jsval list" where
  "mult_program =
     map Num [LDI_code, 0, 8, LDI_code, 1, 9, MUL_code, 0, 1, PRN_code, 0, HLT_code]"

text \<open>A memory of zeros, and the machine that the program above is loaded into, with the
  stack pointer in register 7 and the timer started.\<close>

definition zero_ram :: "jsval \<Rightarrow> jsval" where
  "zero_ram = (\<lambda>address. Num 0)"

definition mult_machine :: cpu where
  "mult_machine = startClock (load 0 mult_program (CPU (Num 7) zero_ram))"

text \<open>A machine whose first instruction is \<^verbatim>\<open>JMP R7\<close>, and a started one whose first byte
  is no opcode.\<close>

definition jump_machine :: cpu where
  "jump_machine = load 0 [Num JMP_code, Num 7] (CPU (Num 7) zero_ram)"

definition bad_machine :: cpu where
  "bad_machine = startClock (load 0 [Num 255] (CPU (Num 7) zero_ram))"

text \<open>A started machine with 10 in R0 and 0 in R1 whose first instruction is
  \<^verbatim>\<open>DIV R0,R1\<close>, and the same with \<^verbatim>\<open>MOD R0,R1\<close>.\<close>

definition div_machine :: cpu where
  "div_machine =
     startClock (load 0 [Num DIV_code, Num 0, Num 1]
       (snd (LDI (Num 0) (Num 10) (CPU (Num 7) zero_ram))))"

definition mod_machine :: cpu where
  "mod_machine =
     startClock (load 0 [Num MOD_code, Num 0, Num 1]
       (snd (LDI (Num 0) (Num 10) (CPU (Num 7) zero_ram))))"

text \<open>Machines reached from the new one by handlers alone: 5 in R0 and 3 in R1; 200 in
  R0, 100 in R1 and 255 in R2; and the stack pointer R7 raised from 244 to 256 by
  \<^verbatim>\<open>LDI R0,12; ADD R7,R0\<close>.\<close>

definition cmp_machine :: cpu where
  "cmp_machine = snd (LDI (Num 1) (Num 3) (snd (LDI (Num 0) (Num 5) (CPU (Num 7) zero_ram))))"

definition add_machine :: cpu where
  "add_machine =
     snd (LDI (Num 2) (Num 255)
       (snd (LDI (Num 1) (Num 100) (snd (LDI (Num 0) (Num 200) (CPU (Num 7) zero_ram))))))"



section \<open>Facts about the values\<close>

lemmas opcodes =
  HLT_code_def ADD_code_def MUL_code_def LDI_code_def PRN_code_def POP_code_def
  PUSH_code_def CALL_code_def RET_code_def AND_code_def NOP_code_def INC_code_def
  DEC_code_def DIV_code_def CMP_code_def JEQ_code_def JNE_code_def JMP_code_def
  MOD_code_def NOT_code_def OR_code_def SUB_code_def XOR_code_def

lemmas handlers =
  HLT_def ADD_def MUL_def LDI_def PRN_def POP_def PUSH_def CALL_def RET_def AND_def
  NOP_def INC_def DEC_def DIV_def CMP_def JEQ_def JNE_def JMP_def MOD_def NOT_def
  OR_def SUB_def XOR_def

lemma js_add_Num: "js_add (Num a) (Num b) = Num (a + b)"
  by (simp add: js_add_def)

lemma js_sub_Num: "js_sub (Num a) (Num b) = Num (a - b)"
  by (simp add: js_sub_def js_add_def)

lemma trunc_of_int: "trunc (of_int k) = k"
  by (simp add: trunc_def flip: of_int_minus)

lemma trunc_numeral: "trunc (numeral w) = numeral w" "trunc 0 = 0" "trunc 1 = 1"
  by (simp_all add: trunc_def)

lemma toInt32_of_int:
  assumes "- (2 ^ 31) \<le> k" "k < 2 ^ 31"
  shows "toInt32 (Num (of_int k)) = k"
proof (cases "0 \<le> k")
  case True
  with assms have "k mod 2 ^ 32 = k" by simp
  with assms show ?thesis by (simp add: trunc_of_int Let_def)
next
  case False
  with assms have "k mod 2 ^ 32 = (k + 2 ^ 32) mod 2 ^ 32" by simp
  also from assms False have "\<dots> = k + 2 ^ 32" by (intro mod_pos_pos_trivial) simp_all
  finally show ?thesis using assms False by (simp add: trunc_of_int Let_def)
qed


lemma div_64_and_3:
  assumes "0 \<le> k" "k < 256"
  shows "and (k div 64) 3 = (k::int) div 64"
proof -
  have "and (k div 64) 3 = and (k div 64) (mask 2)"
    by (simp add: mask_eq_exp_minus_1)
  also have "\<dots> = take_bit 2 (k div 64)" by (simp add: take_bit_eq_mask)
  also from assms have "\<dots> = k div 64" by (simp add: take_bit_int_eq_self)
  finally show ?thesis .
qed


lemma js_add_regroup:
  "js_add a (js_add (js_and x y) (Num 1)) = js_add (js_add a (Num 1)) (js_and x y)"
  by (cases a) (simp_all add: js_add_def js_and_def)

lemma operand_count:
  assumes "0 \<le> k" "k < 256"
  shows "js_add (js_and (js_shr (Num (of_int k)) (Num 6)) (Num 3)) (Num 1) = Num (of_int (k div 64) + 1)"
proof -
  from assms have "toInt32 (Num (of_int k)) = k" by (intro toInt32_of_int) simp_all
  moreover have "toInt32 (Num 6) = 6" "toInt32 (Num 3) = 3"
    by (simp_all add: trunc_numeral Let_def)
  moreover from assms have "- (2 ^ 31) \<le> k div 64" "k div 64 < 2 ^ 31" by simp_all
  then have "toInt32 (Num (of_int (k div 64))) = k div 64" by (rule toInt32_of_int)
  ultimately show ?thesis
    by (simp add: js_shr_def js_and_def js_add_Num drop_bit_eq_div div_64_and_3 [OF assms]
        del: toInt32.simps)
qed

lemma step_over:
  "js_add (js_and (js_shr (Num LDI_code) (Num 6)) (Num 3)) (Num 1) = Num 3"
  "js_add (js_and (js_shr (Num MUL_code) (Num 6)) (Num 3)) (Num 1) = Num 3"
  "js_add (js_and (js_shr (Num PRN_code) (Num 6)) (Num 3)) (Num 1) = Num 2"
  "js_add (js_and (js_shr (Num HLT_code) (Num 6)) (Num 3)) (Num 1) = Num 1"
  "js_add (js_and (js_shr (Num DIV_code) (Num 6)) (Num 3)) (Num 1) = Num 3"
  "js_add (js_and (js_shr (Num MOD_code) (Num 6)) (Num 3)) (Num 1) = Num 3"
  "js_add (js_and (js_shr (Num CMP_code) (Num 6)) (Num 3)) (Num 1) = Num 3"
  by (simp_all add: opcodes js_and_def js_shr_def js_add_Num trunc_numeral Let_def)

lemma js_or_flags:
  "js_or Undefined (Num 2) = Num 2" "js_or (Num 2) (Num 1) = Num 3"
  by (simp_all add: js_or_def trunc_numeral Let_def)

lemma wrap_range:
  "0 \<le> m \<Longrightarrow> m < 4294967296 \<Longrightarrow>
     - 2147483648 \<le> (if 2147483648 \<le> m then m - 4294967296 else m) \<and>
     (if 2147483648 \<le> m then m - 4294967296 else m) < (2147483648 :: int)"
  by simp

lemma toInt32_range: "- (2 ^ 31) \<le> toInt32 v \<and> toInt32 v < 2 ^ 31"
proof (cases v)
  case (Num q)
  from wrap_range [of "trunc q mod 4294967296"]
  have "- 2147483648 \<le> (if 2147483648 \<le> trunc q mod 4294967296
                           then trunc q mod 4294967296 - 4294967296
                           else trunc q mod 4294967296) \<and>
        (if 2147483648 \<le> trunc q mod 4294967296
         then trunc q mod 4294967296 - 4294967296
         else trunc q mod 4294967296) < 2147483648"
    by simp
  with Num show ?thesis by (simp add: Let_def split: if_splits)
qed simp_all

lemma or_int32:
  assumes "- (2 ^ 31) \<le> x" "x < 2 ^ 31" "0 \<le> m" "m < 2 ^ 31"
  shows "- (2 ^ 31) \<le> or x m \<and> or x m < (2 ^ 31 :: int)"
proof (cases "0 \<le> x")
  case True
  with assms have "or x m < 2 ^ 31" by (intro OR_upper) simp_all
  moreover from True assms have "0 \<le> or x m" by simp
  ultimately show ?thesis by linarith
next
  case False
  then have "or x m < 0" by simp
  moreover from assms have "x \<le> or x m" by (intro or_greater_eq) simp
  ultimately show ?thesis using assms by linarith
qed

lemma toInt32_js_or:
  assumes "0 \<le> m" "m < 2 ^ 31"
  shows "toInt32 (js_or a (Num (of_int m))) = or (toInt32 a) m"
proof -
  from assms have m: "toInt32 (Num (of_int m)) = m" by (intro toInt32_of_int) simp_all
  from or_int32 [OF _ _ assms, of "toInt32 a"] toInt32_range [of a]
  have "toInt32 (Num (of_int (or (toInt32 a) m))) = or (toInt32 a) m"
    by (intro toInt32_of_int) simp_all
  with m show ?thesis by (simp add: js_or_def del: toInt32.simps)
qed

lemma toInt32_flag_bits:
  "toInt32 (js_or a (Num 1)) = or (toInt32 a) 1"
  "toInt32 (js_or a (Num 2)) = or (toInt32 a) 2"
  "toInt32 (js_or a (Num 4)) = or (toInt32 a) 4"
  using toInt32_js_or [of 1 a] toInt32_js_or [of 2 a] toInt32_js_or [of 4 a] by simp_all

lemma zero_cases: "js_seq b (Num 0) \<Longrightarrow> b = Num 0 \<or> b = NegZero"
  by (cases b) (simp_all add: js_seq_def split: if_splits)

lemma js_div_by_zero:
  assumes "js_seq b (Num 0)"
  shows "js_div (Num q) b \<noteq> Num q"
  using zero_cases [OF assms] by (auto simp add: js_div_def signed_inf_def)

lemma js_mod_by_zero:
  assumes "js_seq b (Num 0)"
  shows "js_mod a b = NaN"
  using zero_cases [OF assms] by (auto simp add: js_mod_def)

lemma compare_exclusive:
  "js_seq a b \<Longrightarrow> \<not> js_gt a b" "js_seq a b \<Longrightarrow> \<not> js_lt a b" "js_gt a b \<Longrightarrow> \<not> js_lt a b"
  by (cases a; cases b; simp add: js_seq_def js_gt_def js_lt_def split: if_splits)+



section \<open>Facts about the ALU, the handlers and the branch table\<close>

lemma alu_special:
  "PC (alu op regA regB s) = PC s" "IR (alu op regA regB s) = IR s"
  "ram (alu op regA regB s) = ram s" "console_log (alu op regA regB s) = console_log s"
  by (simp_all add: alu_def Let_def HLT_def stopClock_def)

lemma alu_FL: "op \<noteq> ''CMP'' \<Longrightarrow> FL (alu op regA regB s) = FL s"
  by (simp add: alu_def Let_def HLT_def stopClock_def)

lemma alu_CMP:
  "alu ''CMP'' regA regB s =
     (if js_seq (reg s (key_of regA)) (reg s (key_of regB)) then s\<lparr>FL := js_or (FL s) (Num 1)\<rparr>
      else if js_gt (reg s (key_of regA)) (reg s (key_of regB)) then s\<lparr>FL := js_or (FL s) (Num 2)\<rparr>
      else if js_lt (reg s (key_of regA)) (reg s (key_of regB)) then s\<lparr>FL := js_or (FL s) (Num 4)\<rparr>
      else s)"
  using compare_exclusive [of "reg s (key_of regA)" "reg s (key_of regB)"]
  by (auto simp add: alu_def Let_def)

lemma alu_zero_divisor:
  assumes "js_seq (reg s (key_of regB)) (Num 0)"
  shows "alu ''DIV'' regA regB s =
           s\<lparr>console_error := console_error s @
               [ [Str ''Divider cannot be zero'', Val (reg s (key_of regB))] ],
             clock := False,
             reg := (reg s)(key_of regA := js_div (reg s (key_of regA)) (reg s (key_of regB)))\<rparr>"
    and "alu ''MOD'' regA regB s =
           s\<lparr>console_error := console_error s @
               [ [Str ''Divder cannot be zeor'', Val (reg s (key_of regB))] ],
             clock := False,
             reg := (reg s)(key_of regA := js_mod (reg s (key_of regA)) (reg s (key_of regB)))\<rparr>"
  using assms by (simp_all add: alu_def Let_def HLT_def stopClock_def)



lemma table_simps:
  "setupBranchTable sp (Num LDI_code) = Some LDI"
  "setupBranchTable sp (Num MUL_code) = Some MUL"
  "setupBranchTable sp (Num PRN_code) = Some PRN"
  "setupBranchTable sp (Num HLT_code) = Some HLT"
  "setupBranchTable sp (Num JMP_code) = Some JMP"
  "setupBranchTable sp (Num DIV_code) = Some DIV"
  "setupBranchTable sp (Num MOD_code) = Some MOD"
  "setupBranchTable sp (Num CMP_code) = Some CMP"
  by (simp_all add: setupBranchTable_def opcodes)

lemma key_of_opcode:
  "key_of (Num LDI_code) = Num LDI_code" "key_of (Num MUL_code) = Num MUL_code"
  "key_of (Num PRN_code) = Num PRN_code" "key_of (Num HLT_code) = Num HLT_code"
  "key_of (Num JMP_code) = Num JMP_code" "key_of (Num DIV_code) = Num DIV_code"
  "key_of (Num MOD_code) = Num MOD_code" "key_of (Num CMP_code) = Num CMP_code"
  by simp_all

lemma table_cases:
  assumes "setupBranchTable sp k = Some h"
  shows "h \<in> {HLT, ADD, MUL, LDI, PRN, POP sp, PUSH sp, CALL, RET sp, AND, NOP, INC, DEC, DIV,
     CMP, JEQ, JMP, JNE, MOD, NOT, OR, SUB, XOR}"
  using assms by (auto simp add: setupBranchTable_def split: if_splits)

lemma table_cases_not_CMP:
  assumes "setupBranchTable sp k = Some h" "k \<noteq> Num CMP_code"
  shows "h \<in> {HLT, ADD, MUL, LDI, PRN, POP sp, PUSH sp, CALL, RET sp, AND, NOP, INC, DEC, DIV,
     JEQ, JMP, JNE, MOD, NOT, OR, SUB, XOR}"
  using assms by (auto simp add: setupBranchTable_def split: if_splits)

lemma handler_special:
  assumes "setupBranchTable sp k = Some h"
  shows "PC (snd (h a b s)) = PC s \<and> IR (snd (h a b s)) = IR s"
  using table_cases [OF assms]
  by (auto simp add: handlers pop_def push_def alu_special Let_def stopClock_def)

lemma handler_FL:
  assumes "setupBranchTable sp k = Some h" "k \<noteq> Num CMP_code"
  shows "FL (snd (h a b s)) = FL s"
  using table_cases_not_CMP [OF assms]
  by (auto simp add: handlers pop_def push_def alu_FL Let_def stopClock_def)

section \<open>Facts about one cycle and the run\<close>

lemma run_stopped: "\<not> clock s \<Longrightarrow> run n sp s = Some s"
  by (cases n) simp_all

lemma tick_unknown:
  assumes "setupBranchTable sp (key_of (ram_read (ram s) (PC s))) = None"
  shows "tick sp s =
           s\<lparr>IR := ram_read (ram s) (PC s),
             console_error := console_error s @ [ [StrVal ''Unknown opcode '' (ram_read (ram s) (PC s))] ],
             clock := False\<rparr>"
  using assms by (simp add: tick_def stopClock_def)

lemma tick_handler:
  assumes "setupBranchTable sp (key_of (ram_read (ram s) (PC s))) = Some h"
    and "h (ram_read (ram s) (js_add (PC s) (Num 1))) (ram_read (ram s) (js_add (PC s) (Num 2)))
           (s\<lparr>IR := ram_read (ram s) (PC s)\<rparr>) = (nextPC, s2)"
  shows "tick sp s =
           (if nextPC \<noteq> Undefined then s2\<lparr>PC := nextPC\<rparr>
            else s2\<lparr>PC := js_add (PC s2) (js_add (js_and (js_shr (IR s2) (Num 6)) (Num 3)) (Num 1))\<rparr>)"
  using assms by (simp add: tick_def Let_def)

lemma tick_LDI:
  assumes "ram_read (ram s) (PC s) = Num LDI_code" "PC s = Num p"
  shows "tick sp s =
           s\<lparr>IR := Num LDI_code,
             reg := (reg s)(key_of (ram_read (ram s) (Num (p + 1))) := ram_read (ram s) (Num (p + 2))),
             PC := Num (p + 3)\<rparr>"
  using assms
  by (simp add: tick_def table_simps key_of_opcode LDI_def step_over js_add_Num Let_def)

lemma tick_MUL:
  assumes "ram_read (ram s) (PC s) = Num MUL_code" "PC s = Num p"
  shows "tick sp s =
           s\<lparr>IR := Num MUL_code,
             reg := (reg s)(key_of (ram_read (ram s) (Num (p + 1))) :=
                      js_mul (reg s (key_of (ram_read (ram s) (Num (p + 1)))))
                             (reg s (key_of (ram_read (ram s) (Num (p + 2)))))),
             PC := Num (p + 3)\<rparr>"
  using assms
  by (simp add: tick_def table_simps key_of_opcode MUL_def alu_def step_over js_add_Num Let_def)

lemma tick_PRN:
  assumes "ram_read (ram s) (PC s) = Num PRN_code" "PC s = Num p"
  shows "tick sp s =
           s\<lparr>IR := Num PRN_code,
             console_log := console_log s @ [ [Val (reg s (key_of (ram_read (ram s) (Num (p + 1)))))] ],
             PC := Num (p + 2)\<rparr>"
  using assms
  by (simp add: tick_def table_simps key_of_opcode PRN_def step_over js_add_Num Let_def)

lemma tick_HLT:
  assumes "ram_read (ram s) (PC s) = Num HLT_code" "PC s = Num p"
  shows "tick sp s = s\<lparr>IR := Num HLT_code, clock := False, PC := Num (p + 1)\<rparr>"
  using assms
  by (simp add: tick_def table_simps key_of_opcode HLT_def stopClock_def step_over js_add_Num Let_def)

lemma tick_DIV_MOD:
  "ram_read (ram s) (PC s) = Num DIV_code \<Longrightarrow>
     tick sp s = (alu ''DIV'' (ram_read (ram s) (js_add (PC s) (Num 1)))
                    (ram_read (ram s) (js_add (PC s) (Num 2))) (s\<lparr>IR := Num DIV_code\<rparr>))
                 \<lparr>PC := js_add (PC s) (Num 3)\<rparr>"
  "ram_read (ram s) (PC s) = Num MOD_code \<Longrightarrow>
     tick sp s = (alu ''MOD'' (ram_read (ram s) (js_add (PC s) (Num 1)))
                    (ram_read (ram s) (js_add (PC s) (Num 2))) (s\<lparr>IR := Num MOD_code\<rparr>))
                 \<lparr>PC := js_add (PC s) (Num 3)\<rparr>"
  by (simp_all add: tick_def table_simps key_of_opcode DIV_def MOD_def alu_special step_over Let_def)

lemma tick_FL:
  assumes "key_of (ram_read (ram s) (PC s)) \<noteq> Num CMP_code"
  shows "FL (tick sp s) = FL s"
proof (cases "setupBranchTable sp (key_of (ram_read (ram s) (PC s)))")
  case None
  then show ?thesis by (simp add: tick_unknown)
next
  case (Some h)
  obtain nextPC s2 where run: "h (ram_read (ram s) (js_add (PC s) (Num 1)))
      (ram_read (ram s) (js_add (PC s) (Num 2))) (s\<lparr>IR := ram_read (ram s) (PC s)\<rparr>) = (nextPC, s2)"
    by (cases "h (ram_read (ram s) (js_add (PC s) (Num 1)))
      (ram_read (ram s) (js_add (PC s) (Num 2))) (s\<lparr>IR := ram_read (ram s) (PC s)\<rparr>)")
  from handler_FL [OF Some assms, of "ram_read (ram s) (js_add (PC s) (Num 1))"
      "ram_read (ram s) (js_add (PC s) (Num 2))" "s\<lparr>IR := ram_read (ram s) (PC s)\<rparr>"] run
  have "FL s2 = FL s" by simp
  then show ?thesis by (simp add: tick_handler [OF Some run])
qed

section \<open>Facts about the example machines\<close>

lemma mult_machine_facts:
  "PC mult_machine = Num 0"
  "ram_read (ram mult_machine) (Num 0) = Num 153"
  "ram_read (ram mult_machine) (Num 1) = Num 0"
  "ram_read (ram mult_machine) (Num 2) = Num 8"
  by (simp_all add: mult_machine_def mult_program_def opcodes startClock_def poke_def
      ram_write_def ram_read_def CPU_def)

lemma jump_machine_facts:
  "PC jump_machine = Num 0"
  "ram_read (ram jump_machine) (Num 0) = Num JMP_code"
  "ram_read (ram jump_machine) (Num 1) = Num 7"
  "reg jump_machine (Num 7) = Num 244"
  by (simp_all add: jump_machine_def opcodes poke_def ram_write_def ram_read_def CPU_def)

lemma bad_machine_facts:
  "PC bad_machine = Num 0" "clock bad_machine" "console_error bad_machine = []"
  "ram_read (ram bad_machine) (Num 0) = Num 255"
  by (simp_all add: bad_machine_def startClock_def poke_def ram_write_def ram_read_def CPU_def)

lemma div_machine_facts:
  "PC div_machine = Num 0" "clock div_machine" "console_error div_machine = []"
  "ram_read (ram div_machine) (Num 0) = Num DIV_code"
  "ram_read (ram div_machine) (Num 1) = Num 0"
  "ram_read (ram div_machine) (Num 2) = Num 1"
  "reg div_machine (Num 0) = Num 10"
  "reg div_machine (Num 1) = Num 0"
  by (simp_all add: div_machine_def startClock_def poke_def ram_write_def ram_read_def
      CPU_def LDI_def array_fill_def)

lemma mod_machine_facts:
  "reg mod_machine (Num 0) = Num 10"
  "reg mod_machine (Num 1) = Num 0"
  by (simp_all add: mod_machine_def startClock_def poke_def CPU_def LDI_def array_fill_def)

lemma cmp_machine_facts:
  "reg cmp_machine (Num 0) = Num 5" "reg cmp_machine (Num 1) = Num 3"
  "reg cmp_machine (Num 7) = Num 244"
  "FL cmp_machine = Undefined" "PC cmp_machine = Num 0" "ram cmp_machine = zero_ram"
  by (simp_all add: cmp_machine_def CPU_def LDI_def array_fill_def)

lemma add_machine_facts:
  "reg add_machine (Num 0) = Num 200" "reg add_machine (Num 1) = Num 100"
  "reg add_machine (Num 2) = Num 255" "reg add_machine (Num 3) = Num 0"
  by (simp_all add: add_machine_def CPU_def LDI_def array_fill_def)



section \<open>The claims\<close>

text \<open>
  C1. In every cycle whose fetched opcode has a handler in the branch table: when the handler
  returns a value other than \<^verbatim>\<open>undefined\<close>, the program counter is that value after the
  cycle; otherwise it is the old program counter plus 1 plus \<^verbatim>\<open>(IR >> 6) & 0b11\<close>, which
  for a numeric program counter and an opcode byte is the old value plus 3 when the top two
  bits of the opcode are 10, plus 2 when they are 01, and plus 1 when they are 00.
\<close>

theorem tick_next_PC:
  assumes "setupBranchTable sp (key_of (ram_read (ram s) (PC s))) = Some h"
    and "h (ram_read (ram s) (js_add (PC s) (Num 1))) (ram_read (ram s) (js_add (PC s) (Num 2)))
           (s\<lparr>IR := ram_read (ram s) (PC s)\<rparr>) = (nextPC, s2)"
  shows "(nextPC \<noteq> Undefined \<longrightarrow> PC (tick sp s) = nextPC) \<and>
         (nextPC = Undefined \<longrightarrow>
            PC (tick sp s) =
              js_add (js_add (PC s) (Num 1)) (js_and (js_shr (ram_read (ram s) (PC s)) (Num 6)) (Num 3)) \<and>
            (\<forall>p k. PC s = Num p \<and> ram_read (ram s) (PC s) = Num (of_int k) \<longrightarrow>
               (128 \<le> k \<and> k < 192 \<longrightarrow> PC (tick sp s) = Num (p + 3)) \<and>
               (64 \<le> k \<and> k < 128 \<longrightarrow> PC (tick sp s) = Num (p + 2)) \<and>
               (0 \<le> k \<and> k < 64 \<longrightarrow> PC (tick sp s) = Num (p + 1))))"
proof -
  let ?ir = "ram_read (ram s) (PC s)"
  let ?step = "js_add (js_and (js_shr ?ir (Num 6)) (Num 3)) (Num 1)"
  from handler_special [OF assms(1), of "ram_read (ram s) (js_add (PC s) (Num 1))"
      "ram_read (ram s) (js_add (PC s) (Num 2))" "s\<lparr>IR := ?ir\<rparr>"] assms(2)
  have same: "PC s2 = PC s" "IR s2 = ?ir" by simp_all
  have jump: "nextPC \<noteq> Undefined \<Longrightarrow> PC (tick sp s) = nextPC"
    by (simp add: tick_handler [OF assms])
  have default: "PC (tick sp s) = js_add (PC s) ?step" if "nextPC = Undefined"
    using that by (simp add: tick_handler [OF assms] same)
  have bytes: "PC (tick sp s) = Num (p + (of_int (k div 64) + 1))"
    if "nextPC = Undefined" "PC s = Num p" "?ir = Num (of_int k)" "0 \<le> k" "k < 256" for p k
    using default [OF that(1)] that(2,3) operand_count [OF that(4,5)] by (simp add: js_add_Num)
  have two: "PC (tick sp s) = Num (p + 3)"
    if "nextPC = Undefined" "PC s = Num p" "?ir = Num (of_int k)" "128 \<le> k" "k < 192" for p k
  proof -
    from that(4,5) have "k div 64 = 2" by simp
    with bytes [OF that(1,2,3)] that(4,5) show ?thesis by simp
  qed
  have one: "PC (tick sp s) = Num (p + 2)"
    if "nextPC = Undefined" "PC s = Num p" "?ir = Num (of_int k)" "64 \<le> k" "k < 128" for p k
  proof -
    from that(4,5) have "k div 64 = 1" by simp
    with bytes [OF that(1,2,3)] that(4,5) show ?thesis by simp
  qed
  have none: "PC (tick sp s) = Num (p + 1)"
    if "nextPC = Undefined" "PC s = Num p" "?ir = Num (of_int k)" "0 \<le> k" "k < 64" for p k
  proof -
    from that(4,5) have "k div 64 = 0" by simp
    with bytes [OF that(1,2,3)] that(4,5) show ?thesis by simp
  qed
  have default': "PC (tick sp s) = js_add (js_add (PC s) (Num 1)) (js_and (js_shr ?ir (Num 6)) (Num 3))"
    if "nextPC = Undefined"
    using default [OF that] by (simp add: js_add_regroup)
  show ?thesis
    using jump default' two one none by blast
qed

theorem tick_next_PC_witness:
  "setupBranchTable (Num 7) (key_of (ram_read (ram mult_machine) (PC mult_machine))) = Some LDI \<and>
   fst (LDI (Num 0) (Num 8) (mult_machine\<lparr>IR := Num 153\<rparr>)) = Undefined \<and>
   PC (tick (Num 7) mult_machine) = Num 3 \<and>
   setupBranchTable (Num 7) (key_of (ram_read (ram jump_machine) (PC jump_machine))) = Some JMP \<and>
   fst (JMP (Num 7) (Num 0) (jump_machine\<lparr>IR := Num 80\<rparr>)) = Num 244 \<and>
   PC (tick (Num 7) jump_machine) = Num 244"
proof -
  have l1: "setupBranchTable (Num 7) (key_of (ram_read (ram mult_machine) (PC mult_machine))) = Some LDI"
    by (simp add: mult_machine_facts setupBranchTable_def opcodes)
  have e1: "LDI (ram_read (ram mult_machine) (js_add (PC mult_machine) (Num 1)))
                (ram_read (ram mult_machine) (js_add (PC mult_machine) (Num 2)))
                (mult_machine\<lparr>IR := ram_read (ram mult_machine) (PC mult_machine)\<rparr>) =
            (Undefined, snd (LDI (Num 0) (Num 8) (mult_machine\<lparr>IR := Num 153\<rparr>)))"
    by (simp add: mult_machine_facts js_add_Num LDI_def)
  have l2: "setupBranchTable (Num 7) (key_of (ram_read (ram jump_machine) (PC jump_machine))) = Some JMP"
    by (simp add: jump_machine_facts setupBranchTable_def opcodes)
  have e2: "JMP (ram_read (ram jump_machine) (js_add (PC jump_machine) (Num 1)))
                (ram_read (ram jump_machine) (js_add (PC jump_machine) (Num 2)))
                (jump_machine\<lparr>IR := ram_read (ram jump_machine) (PC jump_machine)\<rparr>) =
            (Num 244, jump_machine\<lparr>IR := Num 80\<rparr>)"
    by (simp add: jump_machine_facts js_add_Num JMP_def opcodes)
  have "PC (tick (Num 7) mult_machine) = Num (0 + 3)"
    using tick_next_PC [OF l1 e1] mult_machine_facts
    by (elim conjE) (drule mp, simp, elim conjE, drule spec [of _ 0], drule spec [of _ 153], simp)
  moreover have "PC (tick (Num 7) jump_machine) = Num 244"
    using tick_next_PC [OF l2 e2] by simp
  ultimately show ?thesis
    using l1 l2 by (simp add: LDI_def JMP_def jump_machine_facts)
qed

text \<open>
  C2. CMP on the registers \<open>regA\<close> and \<open>regB\<close>, holding \<open>a\<close> and \<open>b\<close>, replaces FL by FL
  OR-ed with bit 0 when \<open>a === b\<close>, with bit 1 when \<open>a > b\<close> and with bit 2 when \<open>a < b\<close>
  (no two of the three hold together): read as a 32-bit integer, the new FL is the old one
  with exactly that bit OR-ed in, so no bit that was set is cleared. Every other operation
  of the ALU and every cycle whose fetched opcode is not CMP leave FL as it is.
\<close>

theorem CMP_sets_flags:
  "FL (snd (CMP regA regB s)) =
     (if js_seq (reg s (key_of regA)) (reg s (key_of regB)) then js_or (FL s) (Num 1)
      else if js_gt (reg s (key_of regA)) (reg s (key_of regB)) then js_or (FL s) (Num 2)
      else if js_lt (reg s (key_of regA)) (reg s (key_of regB)) then js_or (FL s) (Num 4)
      else FL s) \<and>
   toInt32 (FL (snd (CMP regA regB s))) =
     or (toInt32 (FL s))
        (if js_seq (reg s (key_of regA)) (reg s (key_of regB)) then 1
         else if js_gt (reg s (key_of regA)) (reg s (key_of regB)) then 2
         else if js_lt (reg s (key_of regA)) (reg s (key_of regB)) then 4
         else 0) \<and>
   (op \<noteq> ''CMP'' \<longrightarrow> FL (alu op regA regB s) = FL s) \<and>
   (key_of (ram_read (ram s) (PC s)) \<noteq> Num CMP_code \<longrightarrow> FL (tick sp s) = FL s)"
proof -
  let ?a = "reg s (key_of regA)" and ?b = "reg s (key_of regB)"
  have handler: "snd (CMP regA regB s) = alu ''CMP'' regA regB s"
    by (simp add: CMP_def)
  have flags: "FL (alu ''CMP'' regA regB s) =
     (if js_seq ?a ?b then js_or (FL s) (Num 1)
      else if js_gt ?a ?b then js_or (FL s) (Num 2)
      else if js_lt ?a ?b then js_or (FL s) (Num 4)
      else FL s)"
    by (simp add: alu_CMP)
  have bits: "toInt32 (FL (alu ''CMP'' regA regB s)) =
     or (toInt32 (FL s))
        (if js_seq ?a ?b then 1 else if js_gt ?a ?b then 2 else if js_lt ?a ?b then 4 else 0)"
    unfolding flags by (simp add: toInt32_flag_bits del: toInt32.simps)
  have others: "FL (alu op regA regB s) = FL s" if "op \<noteq> ''CMP''"
    by (rule alu_FL [OF that])
  have cycle: "FL (tick sp s) = FL s" if "key_of (ram_read (ram s) (PC s)) \<noteq> Num CMP_code"
    by (rule tick_FL [OF that])
  from flags bits others cycle show ?thesis
    unfolding handler by blast
qed

theorem CMP_sets_flags_witness:
  "FL (snd (CMP (Num 0) (Num 1) cmp_machine)) = Num 2 \<and>
   FL (snd (CMP (Num 0) (Num 0) (snd (CMP (Num 0) (Num 1) cmp_machine)))) = Num 3 \<and>
   ''ADD'' \<noteq> ''CMP'' \<and>
   FL (alu ''ADD'' (Num 0) (Num 1) (snd (CMP (Num 0) (Num 1) cmp_machine))) = Num 2 \<and>
   key_of (ram_read (ram cmp_machine) (PC cmp_machine)) \<noteq> Num CMP_code \<and>
   FL (tick (Num 7) cmp_machine) = FL cmp_machine"
proof -
  define s1 where "s1 = snd (CMP (Num 0) (Num 1) cmp_machine)"
  have first: "FL s1 = Num 2"
    using CMP_sets_flags [of "Num 0" "Num 1" cmp_machine "''ADD''" "Num 7"]
    by (simp add: s1_def cmp_machine_facts js_seq_def js_gt_def js_lt_def js_or_flags)
  have regs: "reg s1 (Num 0) = Num 5"
    by (simp add: s1_def CMP_def alu_CMP cmp_machine_facts)
  have second: "FL (snd (CMP (Num 0) (Num 0) s1)) = Num 3"
    using CMP_sets_flags [of "Num 0" "Num 0" s1 "''ADD''" "Num 7"]
    by (simp add: first regs js_seq_def js_or_flags)
  have third: "FL (alu ''ADD'' (Num 0) (Num 1) s1) = Num 2"
    using CMP_sets_flags [of "Num 0" "Num 1" s1 "''ADD''" "Num 7"] first by simp
  have nop: "key_of (ram_read (ram cmp_machine) (PC cmp_machine)) \<noteq> Num CMP_code"
    by (simp add: cmp_machine_facts ram_read_def zero_ram_def opcodes)
  have fourth: "FL (tick (Num 7) cmp_machine) = FL cmp_machine"
    using CMP_sets_flags [of "Num 0" "Num 1" cmp_machine "''ADD''" "Num 7"] nop by simp
  show ?thesis
    using first second third nop fourth unfolding s1_def by simp
qed

text \<open>
  C3 (the code at a failing input). With 5 in R0 and 3 in R1, \<^verbatim>\<open>CMP R0,R1\<close> leaves FL = 2:
  the Equal bit is clear, yet JNE returns \<^verbatim>\<open>undefined\<close> and the cycle falls through. A
  following \<^verbatim>\<open>CMP R0,R0\<close> leaves FL = 3: the Equal bit is set, yet JEQ returns
  \<^verbatim>\<open>undefined\<close>. JEQ compares the whole of FL with 1 and JNE the whole of FL with 0.
\<close>

theorem JEQ_JNE_compare_whole_FL:
  "FL (snd (CMP (Num 0) (Num 1) cmp_machine)) = Num 2 \<and>
   fst (JNE (Num 0) Undefined (snd (CMP (Num 0) (Num 1) cmp_machine))) = Undefined \<and>
   FL (snd (CMP (Num 0) (Num 0) (snd (CMP (Num 0) (Num 1) cmp_machine)))) = Num 3 \<and>
   fst (JEQ (Num 0) Undefined
         (snd (CMP (Num 0) (Num 0) (snd (CMP (Num 0) (Num 1) cmp_machine))))) = Undefined"
  by (simp add: CMP_def alu_CMP cmp_machine_facts JNE_def JEQ_def js_seq_def js_gt_def js_lt_def
      js_or_flags)

text \<open>
  C4 (the code at a failing input). With the bytes 200 in R0 and 100 in R1, \<^verbatim>\<open>ADD R0,R1\<close>
  leaves 300 in R0, and \<^verbatim>\<open>DEC R3\<close> on the byte 0 leaves -1 in R3: neither is truncated to
  8 bits. INC masks its result: \<^verbatim>\<open>INC R2\<close> on 255 leaves 0.
\<close>

theorem ADD_not_truncated:
  "is_byte (reg add_machine (key_of (Num 0))) \<and> is_byte (reg add_machine (key_of (Num 1))) \<and>
   reg (snd (ADD (Num 0) (Num 1) add_machine)) (key_of (Num 0)) = Num 300 \<and>
   \<not> is_byte (reg (snd (ADD (Num 0) (Num 1) add_machine)) (key_of (Num 0))) \<and>
   reg (snd (DEC (Num 3) Undefined add_machine)) (key_of (Num 3)) = Num (- 1) \<and>
   reg (snd (INC (Num 2) Undefined add_machine)) (key_of (Num 2)) = Num 0"
  by (simp add: ADD_def DEC_def INC_def alu_def add_machine_facts js_add_Num js_sub_Num
      js_and_def trunc_numeral Let_def)

text \<open>
  C5. In every cycle that executes DIV or MOD while the divisor register holds zero, one
  error line that carries the value of the divisor is written and the timer is stopped, by
  the call of the HLT handler; the run then returns the state after that cycle whatever the
  number of further cycles the timer would allow, so no later cycle executes.
\<close>

theorem zero_divisor_halts:
  assumes "ram_read (ram s) (PC s) = Num DIV_code \<or> ram_read (ram s) (PC s) = Num MOD_code"
    and "js_seq (reg s (key_of (ram_read (ram s) (js_add (PC s) (Num 2))))) (Num 0)"
  shows "console_error (tick sp s) =
           console_error s @
             [ [Str (if ram_read (ram s) (PC s) = Num DIV_code
                    then ''Divider cannot be zero'' else ''Divder cannot be zeor''),
               Val (reg s (key_of (ram_read (ram s) (js_add (PC s) (Num 2)))))] ] \<and>
         clock (tick sp s) = clock (snd (HLT Undefined Undefined s)) \<and>
         \<not> clock (tick sp s) \<and>
         run n sp (tick sp s) = Some (tick sp s) \<and>
         (clock s \<longrightarrow> run (Suc n) sp s = Some (tick sp s))"
proof -
  let ?b = "ram_read (ram s) (js_add (PC s) (Num 2))"
  have zero: "js_seq (reg (s\<lparr>IR := v\<rparr>) (key_of ?b)) (Num 0)" for v
    using assms(2) by simp
  have differ: "Num DIV_code \<noteq> Num MOD_code" by (simp add: opcodes)
  have err: "console_error (tick sp s) =
           console_error s @
             [ [Str (if ram_read (ram s) (PC s) = Num DIV_code
                    then ''Divider cannot be zero'' else ''Divder cannot be zeor''),
               Val (reg s (key_of ?b))] ]"
    using assms(1) differ
    by (auto simp add: tick_DIV_MOD alu_zero_divisor [OF zero])
  have off: "\<not> clock (tick sp s)"
    using assms(1) by (auto simp add: tick_DIV_MOD alu_zero_divisor [OF zero])
  have "run n sp (tick sp s) = Some (tick sp s)" by (rule run_stopped [OF off])
  with err off show ?thesis by (simp add: HLT_def stopClock_def)
qed

theorem zero_divisor_halts_witness:
  "ram_read (ram div_machine) (PC div_machine) = Num DIV_code \<and>
   js_seq (reg div_machine (key_of (ram_read (ram div_machine) (js_add (PC div_machine) (Num 2)))))
     (Num 0) \<and>
   clock div_machine \<and>
   console_error (tick (Num 7) div_machine) = [ [Str ''Divider cannot be zero'', Val (Num 0)] ] \<and>
   \<not> clock (tick (Num 7) div_machine) \<and>
   run 4 (Num 7) div_machine = Some (tick (Num 7) div_machine)"
proof -
  have op: "ram_read (ram div_machine) (PC div_machine) = Num DIV_code \<or>
            ram_read (ram div_machine) (PC div_machine) = Num MOD_code"
    by (simp add: div_machine_facts)
  have zero: "js_seq (reg div_machine
      (key_of (ram_read (ram div_machine) (js_add (PC div_machine) (Num 2))))) (Num 0)"
    by (simp add: div_machine_facts js_add_Num js_seq_def)
  have four: "(4::nat) = Suc 3" by simp
  from zero_divisor_halts [OF op zero, of "Num 7" 3] zero show ?thesis
    unfolding four by (simp add: div_machine_facts js_add_Num HLT_def stopClock_def)
qed

text \<open>
  C6. In every cycle whose fetched byte has no entry in the branch table, the cycle stores
  the byte in IR, writes one error line naming the byte and stops the timer, and changes
  nothing else (no handler runs, the program counter stays); the run then returns that state
  whatever the number of further cycles the timer would allow.
\<close>

theorem unknown_opcode_halts:
  assumes "setupBranchTable sp (key_of (ram_read (ram s) (PC s))) = None"
  shows "tick sp s =
           s\<lparr>IR := ram_read (ram s) (PC s),
             console_error := console_error s @
               [ [StrVal ''Unknown opcode '' (ram_read (ram s) (PC s))] ],
             clock := False\<rparr> \<and>
         run n sp (tick sp s) = Some (tick sp s) \<and>
         (clock s \<longrightarrow> run (Suc n) sp s = Some (tick sp s))"
proof -
  have step: "tick sp s =
           s\<lparr>IR := ram_read (ram s) (PC s),
             console_error := console_error s @
               [ [StrVal ''Unknown opcode '' (ram_read (ram s) (PC s))] ],
             clock := False\<rparr>"
    by (rule tick_unknown [OF assms])
  then have off: "\<not> clock (tick sp s)" by simp
  have "run n sp (tick sp s) = Some (tick sp s)" by (rule run_stopped [OF off])
  with step show ?thesis by simp
qed

theorem unknown_opcode_halts_witness:
  "setupBranchTable (Num 7) (key_of (ram_read (ram bad_machine) (PC bad_machine))) = None \<and>
   clock bad_machine \<and>
   console_error (tick (Num 7) bad_machine) = [ [StrVal ''Unknown opcode '' (Num 255)] ] \<and>
   PC (tick (Num 7) bad_machine) = Num 0 \<and>
   \<not> clock (tick (Num 7) bad_machine) \<and>
   run 3 (Num 7) bad_machine = Some (tick (Num 7) bad_machine)"
proof -
  have none: "setupBranchTable (Num 7) (key_of (ram_read (ram bad_machine) (PC bad_machine))) = None"
    by (simp add: bad_machine_facts setupBranchTable_def opcodes)
  have three: "(3::nat) = Suc 2" by simp
  from unknown_opcode_halts [OF none, of 2] none show ?thesis
    unfolding three by (simp add: bad_machine_facts)
qed




text \<open>
  C8 (the code at a failing input). The constructor leaves FL \<^verbatim>\<open>undefined\<close>, not 0: the
  test \<^verbatim>\<open>FL === 0\<close> of JNE fails on the new machine. PC and IR are 0, the stack pointer
  register holds 0xF4 and, with register 7 as the stack pointer, registers 0 to 6 hold 0.
\<close>

theorem constructor_leaves_FL_undefined:
  "FL (CPU sp ram0) = Undefined \<and> \<not> js_seq (FL (CPU sp ram0)) (Num 0) \<and>
   fst (JNE regA operandB (CPU sp ram0)) = Undefined \<and>
   PC (CPU sp ram0) = Num 0 \<and> IR (CPU sp ram0) = Num 0 \<and>
   reg (CPU sp ram0) (key_of sp) = Num 244 \<and>
   map (reg (CPU (Num 7) ram0)) [Num 0, Num 1, Num 2, Num 3, Num 4, Num 5, Num 6, Num 7] =
     [Num 0, Num 0, Num 0, Num 0, Num 0, Num 0, Num 0, Num 244]"
  by (simp add: CPU_def JNE_def js_seq_def array_fill_def)

text \<open>
  C9. The program \<^verbatim>\<open>LDI R0,8; LDI R1,9; MUL R0,R1; PRN R0; HLT\<close>, loaded at address 0 of any
  memory and run from the new machine (PC 0) with any register as stack pointer, stops after
  its five cycles: the run returns whatever the number of further cycles the timer would
  allow, with exactly one printed line, the value 72, with no error line, and with the
  timer off.
\<close>

theorem mult_program_prints_72:
  "\<exists>s'. run (5 + n) sp (startClock (load 0 mult_program (CPU sp ram0))) = Some s' \<and>
        console_log s' = [ [Val (Num 72)] ] \<and> console_error s' = [] \<and> \<not> clock s'"
proof -
  define s0 where "s0 = startClock (load 0 mult_program (CPU sp ram0))"
  have mem: "ram s0 =
      ram0(Num 0 := Num LDI_code, Num 1 := Num 0, Num 2 := Num 8,
           Num 3 := Num LDI_code, Num 4 := Num 1, Num 5 := Num 9,
           Num 6 := Num MUL_code, Num 7 := Num 0, Num 8 := Num 1,
           Num 9 := Num PRN_code, Num 10 := Num 0, Num 11 := Num HLT_code)"
    by (simp add: s0_def mult_program_def startClock_def poke_def ram_write_def CPU_def)
  have init: "PC s0 = Num 0" "clock s0" "console_log s0 = []" "console_error s0 = []"
    by (simp_all add: s0_def mult_program_def startClock_def poke_def CPU_def)
  define s1 where "s1 = s0\<lparr>IR := Num LDI_code, reg := (reg s0)(Num 0 := Num 8), PC := Num 3\<rparr>"
  define s2 where "s2 = s1\<lparr>IR := Num LDI_code, reg := (reg s1)(Num 1 := Num 9), PC := Num 6\<rparr>"
  define s3 where "s3 = s2\<lparr>IR := Num MUL_code, reg := (reg s2)(Num 0 := Num 72), PC := Num 9\<rparr>"
  define s4 where "s4 = s3\<lparr>IR := Num PRN_code, console_log := [ [Val (Num 72)] ], PC := Num 11\<rparr>"
  define s5 where "s5 = s4\<lparr>IR := Num HLT_code, clock := False, PC := Num 12\<rparr>"
  have t1: "tick sp s0 = s1"
    using tick_LDI [of s0 0 sp] by (simp add: s1_def mem init ram_read_def)
  have t2: "tick sp s1 = s2"
    using tick_LDI [of s1 3 sp] by (simp add: s2_def s1_def mem ram_read_def)
  have t3: "tick sp s2 = s3"
    using tick_MUL [of s2 6 sp]
    by (simp add: s3_def s2_def s1_def mem ram_read_def js_mul_def finite_result_def)
  have t4: "tick sp s3 = s4"
    using tick_PRN [of s3 9 sp]
    by (simp add: s4_def s3_def s2_def s1_def mem init ram_read_def)
  have t5: "tick sp s4 = s5"
    using tick_HLT [of s4 11 sp]
    by (simp add: s5_def s4_def s3_def s2_def s1_def mem ram_read_def)
  have on: "clock s1" "clock s2" "clock s3" "clock s4"
    by (simp_all add: s4_def s3_def s2_def s1_def init)
  have off: "\<not> clock s5" by (simp add: s5_def)
  have fuel: "5 + n = Suc (Suc (Suc (Suc (Suc n))))" by simp
  have "run (5 + n) sp s0 = Some s5"
    unfolding fuel by (simp add: init on t1 t2 t3 t4 t5 run_stopped [OF off])
  moreover have "console_log s5 = [ [Val (Num 72)] ]" "console_error s5 = []"
    by (simp_all add: s5_def s4_def s3_def s2_def s1_def init)
  ultimately show ?thesis using off unfolding s0_def by blast
qed

text \<open>
  C10. When the DIV or the MOD handler runs while the divisor register holds zero, it does
  not return after the error line and the stop of the timer: the destination register is
  still assigned the quotient, respectively the remainder, of the two register values. A
  destination that held a finite number holds another value afterwards (an infinity or NaN),
  and the state after the handler is never the state before it.
\<close>

theorem zero_divisor_still_assigns:
  assumes "js_seq (reg s (key_of regB)) (Num 0)"
  shows "reg (snd (DIV regA regB s)) (key_of regA) =
           js_div (reg s (key_of regA)) (reg s (key_of regB)) \<and>
         reg (snd (MOD regA regB s)) (key_of regA) =
           js_mod (reg s (key_of regA)) (reg s (key_of regB)) \<and>
         (\<forall>q. reg s (key_of regA) = Num q \<longrightarrow>
            reg (snd (DIV regA regB s)) (key_of regA) \<noteq> Num q \<and>
            reg (snd (MOD regA regB s)) (key_of regA) = NaN) \<and>
         \<not> clock (snd (DIV regA regB s)) \<and> \<not> clock (snd (MOD regA regB s)) \<and>
         snd (DIV regA regB s) \<noteq> s \<and> snd (MOD regA regB s) \<noteq> s"
proof -
  let ?a = "reg s (key_of regA)" and ?b = "reg s (key_of regB)"
  have d: "reg (snd (DIV regA regB s)) (key_of regA) = js_div ?a ?b"
    and m: "reg (snd (MOD regA regB s)) (key_of regA) = js_mod ?a ?b"
    and off: "\<not> clock (snd (DIV regA regB s))" "\<not> clock (snd (MOD regA regB s))"
    by (simp_all add: DIV_def MOD_def alu_zero_divisor [OF assms])
  have "console_error (snd (DIV regA regB s)) \<noteq> console_error s"
    "console_error (snd (MOD regA regB s)) \<noteq> console_error s"
    by (simp_all add: DIV_def MOD_def alu_zero_divisor [OF assms])
  then have changed: "snd (DIV regA regB s) \<noteq> s" "snd (MOD regA regB s) \<noteq> s"
    by auto
  have "js_div ?a ?b \<noteq> Num q" if "?a = Num q" for q
    using that js_div_by_zero [OF assms, of q] by simp
  moreover have "js_mod ?a ?b = NaN" by (rule js_mod_by_zero [OF assms])
  ultimately show ?thesis using d m off changed by simp
qed

theorem zero_divisor_still_assigns_witness:
  "js_seq (reg mod_machine (key_of (Num 1))) (Num 0) \<and>
   reg mod_machine (key_of (Num 0)) = Num 10 \<and>
   reg (snd (DIV (Num 0) (Num 1) mod_machine)) (key_of (Num 0)) = PInf \<and>
   reg (snd (MOD (Num 0) (Num 1) mod_machine)) (key_of (Num 0)) = NaN \<and>
   snd (MOD (Num 0) (Num 1) mod_machine) \<noteq> mod_machine"
proof -
  have zero: "js_seq (reg mod_machine (key_of (Num 1))) (Num 0)"
    by (simp add: mod_machine_facts js_seq_def)
  from zero_divisor_still_assigns [OF zero, of "Num 0"] zero show ?thesis
    by (simp add: mod_machine_facts js_div_def js_mod_def signed_inf_def)
qed

end
